theory Spec2Isabelle
  imports Main
begin

section \<open>JavaScript values\<close>

text \<open>
  The values the link view handles: \<^verbatim>\<open>undefined\<close>, \<^verbatim>\<open>null\<close>, booleans and strings.
  The options are documented as \<^verbatim>\<open>String|Function\<close> with default \<^verbatim>\<open>null\<close>, and the
  flag \<^verbatim>\<open>_isActive\<close> is \<^verbatim>\<open>undefined\<close> until the route handler writes a boolean.
  On these values \<^verbatim>\<open>===\<close> is equality of the values.
\<close>

datatype jsval = JUndefined | JNull | JBool bool | JStr string

text \<open>JavaScript truthiness: \<^verbatim>\<open>undefined\<close>, \<^verbatim>\<open>null\<close>, \<^verbatim>\<open>false\<close> and \<^verbatim>\<open>''\<close> are falsy.\<close>

fun truthy :: "jsval \<Rightarrow> bool" where
  "truthy JUndefined = False"
| "truthy JNull = False"
| "truthy (JBool b) = b"
| "truthy (JStr s) = (s \<noteq> [])"

text \<open>The operator \<^verbatim>\<open>!\<close>.\<close>

definition js_not :: "jsval \<Rightarrow> jsval" where
  "js_not v = JBool (\<not> truthy v)"

text \<open>
  An option of the view is a literal or a function (\<^verbatim>\<open>@type {String|Function}\<close>).
  Functions are values of a type \<open>'f\<close>; what a function returns is given by the
  parameter \<open>invoke\<close> of the operations below. A function is a truthy value.
\<close>

datatype 'f setting = Lit jsval | Fn 'f

fun truthy_setting :: "'f setting \<Rightarrow> bool" where
  "truthy_setting (Lit v) = truthy v"
| "truthy_setting (Fn f) = True"

section \<open>The collaborators: element, event, router history\<close>

text \<open>
  Modelled from the spec: the element helpers of the view framework
  (\<^verbatim>\<open>$el.text\<close>, \<^verbatim>\<open>$el.html\<close>, \<^verbatim>\<open>$el.addClass\<close>, \<^verbatim>\<open>$el.removeClass\<close>) belong to
  libraries the repository imports. The spec asks of them "helpers to set text or markup
  content" and a class that is added and removed. The element holds its class list and
  its content: the text or the markup it was last given. It records the values as the
  view hands them over; how the library coerces a value that is not a string is not the
  repository's.
\<close>

datatype content = Text jsval | Markup jsval

record element =
  classes :: "jsval list"
  content :: content

definition el_text :: "jsval \<Rightarrow> element \<Rightarrow> element" where
  "el_text v e = e\<lparr>content := Text v\<rparr>"

definition el_html :: "jsval \<Rightarrow> element \<Rightarrow> element" where
  "el_html v e = e\<lparr>content := Markup v\<rparr>"

definition addClass :: "jsval \<Rightarrow> element \<Rightarrow> element" where
  "addClass c e = e\<lparr>classes := (if c \<in> set (classes e) then classes e else classes e @ [c])\<rparr>"

definition removeClass :: "jsval \<Rightarrow> element \<Rightarrow> element" where
  "removeClass c e = e\<lparr>classes := removeAll c (classes e)\<rparr>"

text \<open>The element the view framework creates for a new view: no class, no content.\<close>

definition createElement :: element where
  "createElement = \<lparr>classes = [], content = Markup (JStr [])\<rparr>"

text \<open>The DOM event: \<^verbatim>\<open>e.preventDefault()\<close> sets its flag.\<close>

record event =
  defaultPrevented :: bool

definition preventDefault :: "event \<Rightarrow> event" where
  "preventDefault e = e\<lparr>defaultPrevented := True\<rparr>"

text \<open>
  Modelled from the spec: the routing service (\<^verbatim>\<open>Backbone.history\<close>) is a library the
  repository imports. The spec asks of it "a way to query the current route fragment",
  "a way to request navigation to a fragment with history update and notification firing"
  and "a subscribable route-change event". The history holds the current fragment and the
  navigation requests it has received, each with its \<^verbatim>\<open>trigger\<close> option. \<open>navigate\<close>
  and the delivery of the route event to a subscribed view are defined after the view.
\<close>

record history =
  fragment :: string
  navigations :: "(jsval \<times> bool) list"

definition getFragment :: "history \<Rightarrow> string" where
  "getFragment h = fragment h"

text \<open>The fragment a navigation request names; a value that is not a string names the empty one.\<close>

definition fragment_of :: "jsval \<Rightarrow> string" where
  "fragment_of v = (case v of JStr s \<Rightarrow> s | _ \<Rightarrow> [])"

section \<open>The link view\<close>

text \<open>
  The fields of the view. \<open>priv_isActive\<close> is the field \<^verbatim>\<open>_isActive\<close> and \<open>el\<close> is
  \<^verbatim>\<open>$el\<close>. \<open>template\<close> is documented as \<^verbatim>\<open>@type {Function}\<close> with default \<^verbatim>\<open>null\<close>:
  \<open>None\<close> is \<^verbatim>\<open>null\<close>. \<open>listening\<close> holds the subscriptions of the view to the events
  of \<^verbatim>\<open>Backbone.history\<close>: the name of the event and the handler it calls.
\<close>

record 'f LinkView =
  href :: "'f setting"
  activeClass :: "'f setting"
  textContent :: "'f setting"
  innerHTML :: "'f setting"
  template :: "'f option"
  priv_isActive :: jsval
  el :: element
  listening :: "(string \<times> string) list"

text \<open>
  \<open>invoke f this\<close> is the value the function \<open>f\<close> returns when it is called with the
  view \<open>this\<close> as its context, in the program state of the moment of the call: two
  calls at different moments may have different \<open>invoke\<close>. The functions of the options
  produce a value ("a zero-argument function producing the value") and do not write to
  the view.
\<close>

type_synonym 'f invoke = "'f \<Rightarrow> 'f LinkView \<Rightarrow> jsval"

text \<open>\<^verbatim>\<open>_.result(this, name)\<close>: a function is called on \<open>this\<close>, a literal is returned.\<close>

definition result :: "'f invoke \<Rightarrow> 'f LinkView \<Rightarrow> ('f LinkView \<Rightarrow> 'f setting) \<Rightarrow> jsval" where
  "result invoke this name = (case name this of Lit v \<Rightarrow> v | Fn f \<Rightarrow> invoke f this)"

text \<open>
  A method is a function from the state of the view to the value it returns and the state
  of the view after the call. A handler, which returns nothing, gives the state only.
  \<^verbatim>\<open>attributes()\<close> returns an object and \<^verbatim>\<open>isActive()\<close> a value; what
  \<^verbatim>\<open>render()\<close> returns is a \<open>returned\<close>: nothing, the receiver \<^verbatim>\<open>this\<close>, or a
  value. A call chained on a method (\<^verbatim>\<open>link.render().$el\<close>) acts on the view when the
  method returned the receiver, and on no view otherwise.
\<close>

datatype returned = Nothing | This | Value jsval

definition chained :: "returned \<times> 'f LinkView \<Rightarrow> 'f LinkView option" where
  "chained r = (case fst r of This \<Rightarrow> Some (snd r) | _ \<Rightarrow> None)"

definition attributes :: "'f invoke \<Rightarrow> 'f LinkView \<Rightarrow> (string \<times> jsval) list \<times> 'f LinkView" where
  "attributes invoke this = ([(''href'', result invoke this href)], this)"

definition isActive :: "'f LinkView \<Rightarrow> jsval \<times> 'f LinkView" where
  "isActive this = (js_not (js_not (priv_isActive this)), this)"

text \<open>
  The options object of the constructor: for each key of \<^verbatim>\<open>linkViewOptions\<close>, \<open>None\<close>
  when the object has no such key. \<^verbatim>\<open>_.pick\<close> drops every other key, and an absent
  options object picks nothing.
\<close>

record 'f options =
  opt_href :: "'f setting option"
  opt_activeClass :: "'f setting option"
  opt_textContent :: "'f setting option"
  opt_innerHTML :: "'f setting option"
  opt_template :: "'f option option"

definition pick :: "'f options option \<Rightarrow> 'f options" where
  "pick options = (case options of
     None \<Rightarrow> \<lparr>opt_href = None, opt_activeClass = None, opt_textContent = None,
              opt_innerHTML = None, opt_template = None\<rparr>
   | Some opts \<Rightarrow> opts)"

text \<open>
  The fields of the prototype, on the element \<open>e\<close>; it has no \<^verbatim>\<open>_isActive\<close> and no
  subscription.
\<close>

definition prototype :: "element \<Rightarrow> 'f LinkView" where
  "prototype e = \<lparr>href = Lit JNull, activeClass = Lit (JStr ''active''),
     textContent = Lit JNull, innerHTML = Lit JNull, template = None,
     priv_isActive = JUndefined, el = e, listening = []\<rparr>"

text \<open>\<^verbatim>\<open>_.extend(this, picked)\<close>: every key of \<open>picked\<close> overwrites the field.\<close>

definition extend :: "'f LinkView \<Rightarrow> 'f options \<Rightarrow> 'f LinkView" where
  "extend this picked = this\<lparr>
     href := (case opt_href picked of None \<Rightarrow> href this | Some v \<Rightarrow> v),
     activeClass := (case opt_activeClass picked of None \<Rightarrow> activeClass this | Some v \<Rightarrow> v),
     textContent := (case opt_textContent picked of None \<Rightarrow> textContent this | Some v \<Rightarrow> v),
     innerHTML := (case opt_innerHTML picked of None \<Rightarrow> innerHTML this | Some v \<Rightarrow> v),
     template := (case opt_template picked of None \<Rightarrow> template this | Some v \<Rightarrow> v)\<rparr>"

text \<open>\<^verbatim>\<open>this.listenTo(Backbone.history, name, handler)\<close>.\<close>

definition listenTo :: "string \<Rightarrow> string \<Rightarrow> 'f LinkView \<Rightarrow> 'f LinkView" where
  "listenTo name handler this = this\<lparr>listening := listening this @ [(name, handler)]\<rparr>"

text \<open>
  The constructor copies the picked options on the new view and subscribes
  \<^verbatim>\<open>_onRoute\<close> to the event \<^verbatim>\<open>route\<close> of the history; the view framework's
  constructor gives the view its element.
\<close>

definition constructor :: "'f options option \<Rightarrow> 'f LinkView" where
  "constructor options =
     listenTo ''route'' ''_onRoute'' (extend (prototype createElement) (pick options))"

text \<open>\<^verbatim>\<open>render()\<close> ends with \<^verbatim>\<open>return this\<close>.\<close>

definition render :: "'f invoke \<Rightarrow> 'f LinkView \<Rightarrow> returned \<times> 'f LinkView" where
  "render invoke this =
     (This,
      if truthy_setting (textContent this) then
        this\<lparr>el := el_text (result invoke this textContent) (el this)\<rparr>
      else if truthy_setting (innerHTML this) then
        this\<lparr>el := el_html (result invoke this innerHTML) (el this)\<rparr>
      else (case template this of
        Some f \<Rightarrow> this\<lparr>el := el_html (invoke f this) (el this)\<rparr>
      | None \<Rightarrow> this))"

text \<open>The route handler reads the history.\<close>

definition priv_onRoute :: "'f invoke \<Rightarrow> history \<Rightarrow> 'f LinkView \<Rightarrow> 'f LinkView" where
  "priv_onRoute invoke h this =
     (let route = getFragment h;
          href' = result invoke this href;
          activeClass' = result invoke this activeClass
      in if JStr route = href' \<and> \<not> truthy (priv_isActive this) then
           this\<lparr>priv_isActive := JBool True, el := addClass activeClass' (el this)\<rparr>
         else if truthy (priv_isActive this) then
           this\<lparr>priv_isActive := JBool False, el := removeClass activeClass' (el this)\<rparr>
         else this)"

text \<open>
  The event \<open>name\<close> of the history reaches the view when the view has subscribed a handler
  to it: the route event calls \<^verbatim>\<open>_onRoute\<close> on a view that its constructor subscribed.
\<close>

definition history_trigger :: "'f invoke \<Rightarrow> string \<Rightarrow> history \<Rightarrow> 'f LinkView \<Rightarrow> 'f LinkView" where
  "history_trigger invoke name h this =
     (if map_of (listening this) name = Some ''_onRoute'' then priv_onRoute invoke h this
      else this)"

text \<open>
  Modelled from the spec: \<^verbatim>\<open>Backbone.history.navigate(fragment, {trigger: ...})\<close> is the
  router's, "a way to request navigation to a fragment with history update and
  notification firing", and the route-change notification is the "event fired by the
  routing collaborator whenever the current route fragment changes". The history records
  the request and moves to the fragment; when the fragment changes and \<^verbatim>\<open>trigger\<close> is
  set it fires the route event, inside the call. A notification the router fires at
  another moment is a call \<open>Route\<close> of its own (\<open>exec\<close> below).
\<close>

definition navigate ::
  "'f invoke \<Rightarrow> jsval \<Rightarrow> bool \<Rightarrow> history \<Rightarrow> 'f LinkView \<Rightarrow> history \<times> 'f LinkView" where
  "navigate invoke frag trig h this =
     (let h' = h\<lparr>fragment := fragment_of frag, navigations := navigations h @ [(frag, trig)]\<rparr>
      in if trig \<and> fragment_of frag \<noteq> fragment h
         then (h', history_trigger invoke ''route'' h' this)
         else (h', this))"

text \<open>
  The click handler changes the event and asks the history to navigate; the view after
  the click is the view the navigation leaves.
\<close>

definition priv_onClick ::
  "'f invoke \<Rightarrow> event \<Rightarrow> history \<Rightarrow> 'f LinkView \<Rightarrow> event \<times> history \<times> 'f LinkView" where
  "priv_onClick invoke e h this =
     (preventDefault e, navigate invoke (result invoke this href) True h this)"

text \<open>
  The event map \<^verbatim>\<open>events: {click: '_onClick'}\<close>, and the delivery of a DOM event on the
  element to the handler the map names.
\<close>

definition events :: "(string \<times> string) list" where
  "events = [(''click'', ''_onClick'')]"

definition dom_event ::
  "'f invoke \<Rightarrow> string \<Rightarrow> event \<Rightarrow> history \<Rightarrow> 'f LinkView \<Rightarrow> event \<times> history \<times> 'f LinkView" where
  "dom_event invoke name e h this =
     (if map_of events name = Some ''_onClick'' then priv_onClick invoke e h this
      else (e, h, this))"

section \<open>Calls on a view\<close>

text \<open>
  What the owner of a view and the framework can do with it: call a public method, deliver
  a click, or fire the route event once the router has loaded a fragment (the one it is
  at, or another). \<open>exec\<close> gives the history and the view after the call; in a run every
  call has its own \<open>invoke\<close>, the program state of its moment.
\<close>

datatype call = Attributes | IsActive | Render | Click event | Route string

fun exec :: "'f invoke \<Rightarrow> call \<Rightarrow> history \<times> 'f LinkView \<Rightarrow> history \<times> 'f LinkView" where
  "exec invoke Attributes (h, this) = (h, snd (attributes invoke this))"
| "exec invoke IsActive (h, this) = (h, snd (isActive this))"
| "exec invoke Render (h, this) = (h, snd (render invoke this))"
| "exec invoke (Click e) (h, this) =
     (case dom_event invoke ''click'' e h this of (e', h', this') \<Rightarrow> (h', this'))"
| "exec invoke (Route r) (h, this) =
     (let h' = h\<lparr>fragment := r\<rparr> in (h', history_trigger invoke ''route'' h' this))"

text \<open>
  \<open>notifies invoke c (h, this)\<close>: the call \<open>c\<close> delivers a route notification to the view.
  A route event does when the view is subscribed; a click does when the view is
  subscribed and the navigation it requests changes the fragment.
\<close>

definition subscribed :: "'f LinkView \<Rightarrow> bool" where
  "subscribed this = (map_of (listening this) ''route'' = Some ''_onRoute'')"

fun notifies :: "'f invoke \<Rightarrow> call \<Rightarrow> history \<times> 'f LinkView \<Rightarrow> bool" where
  "notifies invoke Attributes (h, this) = False"
| "notifies invoke IsActive (h, this) = False"
| "notifies invoke Render (h, this) = False"
| "notifies invoke (Click e) (h, this) =
     (subscribed this \<and> fragment_of (result invoke this href) \<noteq> fragment h)"
| "notifies invoke (Route r) (h, this) = subscribed this"

fun run :: "('f invoke \<times> call) list \<Rightarrow> history \<times> 'f LinkView \<Rightarrow> history \<times> 'f LinkView" where
  "run [] s = s"
| "run ((invoke, c) # cs) s = run cs (exec invoke c s)"

text \<open>No call of the run delivers a route notification to the view.\<close>

fun quiet :: "('f invoke \<times> call) list \<Rightarrow> history \<times> 'f LinkView \<Rightarrow> bool" where
  "quiet [] s = True"
| "quiet ((invoke, c) # cs) s = (\<not> notifies invoke c s \<and> quiet cs (exec invoke c s))"

section \<open>Example views\<close>

text \<open>
  In the examples a function is named by the string it returns: \<open>Fn ''contact''\<close> is
  \<^verbatim>\<open>() => 'contact'\<close>.
\<close>

definition const_fn :: "string invoke" where
  "const_fn f this = JStr f"

definition no_options :: "string options" where
  "no_options = \<lparr>opt_href = None, opt_activeClass = None, opt_textContent = None,
     opt_innerHTML = None, opt_template = None\<rparr>"

text \<open>\<^verbatim>\<open>new LinkView({href: 'about'})\<close>.\<close>

definition about_link :: "string LinkView" where
  "about_link = constructor (Some (no_options\<lparr>opt_href := Some (Lit (JStr ''about''))\<rparr>))"

text \<open>\<^verbatim>\<open>new LinkView({href: () => 'contact'})\<close>.\<close>

definition contact_link :: "string LinkView" where
  "contact_link = constructor (Some (no_options\<lparr>opt_href := Some (Fn ''contact'')\<rparr>))"

text \<open>
  \<^verbatim>\<open>new LinkView({textContent: 'A', innerHTML: '<b>B</b>', template: () => 'T'})\<close>:
  the three content options at once.
\<close>

definition ab_link :: "string LinkView" where
  "ab_link = constructor (Some (no_options\<lparr>opt_textContent := Some (Lit (JStr ''A'')),
     opt_innerHTML := Some (Lit (JStr ''<b>B</b>'')), opt_template := Some (Some ''T'')\<rparr>))"

text \<open>The program state in which every function returns the string \<open>v\<close>.\<close>

definition returning :: "string \<Rightarrow> string invoke" where
  "returning v f this = JStr v"

text \<open>The history at a fragment, with no navigation requested yet.\<close>

definition history_at :: "string \<Rightarrow> history" where
  "history_at r = \<lparr>fragment = r, navigations = []\<rparr>"

section \<open>Facts about the helpers\<close>

lemma classes_addClass: "set (classes (addClass c e)) = insert c (set (classes e))"
  by (auto simp: addClass_def)

lemma classes_removeClass: "set (classes (removeClass c e)) = set (classes e) - {c}"
  by (auto simp: removeClass_def)

section \<open>The route handler\<close>

lemma priv_onRoute_activate:
  assumes "JStr (getFragment h) = result invoke this href" and "\<not> truthy (priv_isActive this)"
  shows "priv_onRoute invoke h this =
    this\<lparr>priv_isActive := JBool True, el := addClass (result invoke this activeClass) (el this)\<rparr>"
  using assms by (simp add: priv_onRoute_def Let_def)

lemma priv_onRoute_deactivate:
  assumes "truthy (priv_isActive this)"
  shows "priv_onRoute invoke h this =
    this\<lparr>priv_isActive := JBool False, el := removeClass (result invoke this activeClass) (el this)\<rparr>"
  using assms by (simp add: priv_onRoute_def Let_def)

lemma priv_onRoute_inactive_other_route:
  assumes "\<not> truthy (priv_isActive this)" and "JStr (getFragment h) \<noteq> result invoke this href"
  shows "priv_onRoute invoke h this = this"
  using assms by (simp add: priv_onRoute_def Let_def)

lemma about_link_fields:
  "href about_link = Lit (JStr ''about'')" "activeClass about_link = Lit (JStr ''active'')"
  "priv_isActive about_link = JUndefined" "el about_link = createElement"
  "listening about_link = [(''route'', ''_onRoute'')]"
  by (simp_all add: about_link_def constructor_def listenTo_def extend_def prototype_def
      pick_def no_options_def)

text \<open>
  C1. The rows of the transition table that are no-ops. The row "inactive, other route"
  is one (\<open>priv_onRoute_inactive_other_route\<close>). The row "active, same route" is not:
  the second branch of the handler tests \<^verbatim>\<open>_isActive\<close> alone, so a notification that
  finds the view active at its own route deactivates it. The view of
  \<^verbatim>\<open>{href: 'about'}\<close> is active with class \<^verbatim>\<open>active\<close> after a notification at
  \<^verbatim>\<open>about\<close>; after a second notification at \<^verbatim>\<open>about\<close> its flag is \<^verbatim>\<open>false\<close>,
  \<^verbatim>\<open>isActive()\<close> returns \<^verbatim>\<open>false\<close> and the class is gone.
\<close>

theorem priv_onRoute_same_route_twice:
  "priv_isActive (priv_onRoute const_fn (history_at ''about'') about_link) = JBool True
   \<and> classes (el (priv_onRoute const_fn (history_at ''about'') about_link)) = [JStr ''active'']
   \<and> priv_isActive (priv_onRoute const_fn (history_at ''about'')
         (priv_onRoute const_fn (history_at ''about'') about_link)) = JBool False
   \<and> fst (isActive (priv_onRoute const_fn (history_at ''about'')
         (priv_onRoute const_fn (history_at ''about'') about_link))) = JBool False
   \<and> classes (el (priv_onRoute const_fn (history_at ''about'')
         (priv_onRoute const_fn (history_at ''about'') about_link))) = []"
proof -
  let ?h = "history_at ''about''"
  let ?w1 = "priv_onRoute const_fn ?h about_link"
  have w1: "?w1 = about_link\<lparr>priv_isActive := JBool True,
      el := addClass (JStr ''active'') createElement\<rparr>"
    by (simp add: priv_onRoute_activate about_link_fields result_def getFragment_def history_at_def)
  have w2: "priv_onRoute const_fn ?h ?w1 = about_link\<lparr>priv_isActive := JBool False,
      el := removeClass (JStr ''active'') (addClass (JStr ''active'') createElement)\<rparr>"
    by (simp add: w1 priv_onRoute_deactivate about_link_fields result_def)
  show ?thesis
    by (simp add: w2 isActive_def js_not_def) (simp add: w1 addClass_def removeClass_def createElement_def)
qed

text \<open>
  C2. A notification at the view's own route while the view is inactive sets
  \<^verbatim>\<open>_isActive\<close> to \<^verbatim>\<open>true\<close> and adds the resolved active class, so that
  \<^verbatim>\<open>isActive()\<close> returns \<^verbatim>\<open>true\<close>; a notification at another route while the view is
  active sets \<^verbatim>\<open>_isActive\<close> to \<^verbatim>\<open>false\<close> and removes the resolved active class.
\<close>

theorem priv_onRoute_toggles:
  "(JStr (getFragment h) = result invoke this href \<and> \<not> truthy (priv_isActive this) \<longrightarrow>
      priv_onRoute invoke h this = this\<lparr>priv_isActive := JBool True,
        el := addClass (result invoke this activeClass) (el this)\<rparr>
      \<and> fst (isActive (priv_onRoute invoke h this)) = JBool True
      \<and> set (classes (el (priv_onRoute invoke h this))) =
          insert (result invoke this activeClass) (set (classes (el this))))
   \<and> (JStr (getFragment h) \<noteq> result invoke this href \<and> truthy (priv_isActive this) \<longrightarrow>
      priv_onRoute invoke h this = this\<lparr>priv_isActive := JBool False,
        el := removeClass (result invoke this activeClass) (el this)\<rparr>
      \<and> fst (isActive (priv_onRoute invoke h this)) = JBool False
      \<and> set (classes (el (priv_onRoute invoke h this))) =
          set (classes (el this)) - {result invoke this activeClass})"
  by (simp add: priv_onRoute_activate priv_onRoute_deactivate isActive_def js_not_def
      classes_addClass classes_removeClass)

theorem priv_onRoute_toggles_witness:
  "fst (isActive (priv_onRoute const_fn (history_at ''about'') about_link)) = JBool True
   \<and> set (classes (el (priv_onRoute const_fn (history_at ''about'') about_link))) = {JStr ''active''}
   \<and> fst (isActive (priv_onRoute const_fn (history_at ''home'')
         (priv_onRoute const_fn (history_at ''about'') about_link))) = JBool False
   \<and> set (classes (el (priv_onRoute const_fn (history_at ''home'')
         (priv_onRoute const_fn (history_at ''about'') about_link)))) = {}"
proof -
  let ?w1 = "priv_onRoute const_fn (history_at ''about'') about_link"
  have on: "JStr (getFragment (history_at ''about'')) = result const_fn about_link href
      \<and> \<not> truthy (priv_isActive about_link)"
    by (simp add: about_link_fields result_def getFragment_def history_at_def)
  from priv_onRoute_toggles [of "history_at ''about''" const_fn about_link] on
  have w1: "?w1 = about_link\<lparr>priv_isActive := JBool True,
        el := addClass (result const_fn about_link activeClass) (el about_link)\<rparr>"
    and a1: "fst (isActive ?w1) = JBool True"
    and c1: "set (classes (el ?w1)) =
        insert (result const_fn about_link activeClass) (set (classes (el about_link)))"
    by blast+
  have off: "JStr (getFragment (history_at ''home'')) \<noteq> result const_fn ?w1 href
      \<and> truthy (priv_isActive ?w1)"
    unfolding w1 by (simp add: about_link_fields result_def getFragment_def history_at_def)
  from priv_onRoute_toggles [of "history_at ''home''" const_fn ?w1] off
  have a2: "fst (isActive (priv_onRoute const_fn (history_at ''home'') ?w1)) = JBool False"
    and c2: "set (classes (el (priv_onRoute const_fn (history_at ''home'') ?w1))) =
        set (classes (el ?w1)) - {result const_fn ?w1 activeClass}"
    by blast+
  have r1: "result const_fn about_link activeClass = JStr ''active''"
    by (simp add: result_def about_link_fields)
  have r2: "result const_fn ?w1 activeClass = JStr ''active''"
    unfolding w1 by (simp add: result_def about_link_fields)
  show ?thesis
    by (simp add: a1 a2 c1 c2 r1 r2 about_link_fields createElement_def)
qed

lemma contact_link_fields:
  "href contact_link = Fn ''contact''" "activeClass contact_link = Lit (JStr ''active'')"
  "priv_isActive contact_link = JUndefined" "el contact_link = createElement"
  "listening contact_link = [(''route'', ''_onRoute'')]"
  by (simp_all add: contact_link_def constructor_def listenTo_def extend_def prototype_def
      pick_def no_options_def)

lemma ab_link_fields:
  "textContent ab_link = Lit (JStr ''A'')" "innerHTML ab_link = Lit (JStr ''<b>B</b>'')"
  "template ab_link = Some ''T''" "el ab_link = createElement"
  by (simp_all add: ab_link_def constructor_def listenTo_def extend_def prototype_def
      pick_def no_options_def)

section \<open>Rendering\<close>

lemma render_text:
  assumes "truthy_setting (textContent this)"
  shows "snd (render invoke this) =
    this\<lparr>el := el_text (result invoke this textContent) (el this)\<rparr>"
  using assms by (simp add: render_def)

lemma render_html:
  assumes "\<not> truthy_setting (textContent this)" and "truthy_setting (innerHTML this)"
  shows "snd (render invoke this) =
    this\<lparr>el := el_html (result invoke this innerHTML) (el this)\<rparr>"
  using assms by (simp add: render_def)

lemma render_template:
  assumes "\<not> truthy_setting (textContent this)" and "\<not> truthy_setting (innerHTML this)"
    and "template this = Some f"
  shows "snd (render invoke this) = this\<lparr>el := el_html (invoke f this) (el this)\<rparr>"
  using assms by (simp add: render_def)

lemma render_nothing:
  assumes "\<not> truthy_setting (textContent this)" and "\<not> truthy_setting (innerHTML this)"
    and "template this = None"
  shows "snd (render invoke this) = this"
  using assms by (simp add: render_def)

lemma render_keeps:
  "href (snd (render invoke this)) = href this"
  "activeClass (snd (render invoke this)) = activeClass this"
  "textContent (snd (render invoke this)) = textContent this"
  "innerHTML (snd (render invoke this)) = innerHTML this"
  "template (snd (render invoke this)) = template this"
  "priv_isActive (snd (render invoke this)) = priv_isActive this"
  "listening (snd (render invoke this)) = listening this"
  by (simp_all add: render_def split: option.split)

text \<open>
  C3. The priority of the content options: \<^verbatim>\<open>render()\<close> sets the text of the element to
  the resolved \<^verbatim>\<open>textContent\<close> when that option is truthy; otherwise it sets the markup to
  the resolved \<^verbatim>\<open>innerHTML\<close> when that option is truthy; otherwise it sets the markup to
  \<^verbatim>\<open>template()\<close> when a template is set. One helper is applied, once: the first option
  in this order wins.
\<close>

theorem render_priority:
  "(truthy_setting (textContent this) \<longrightarrow>
      snd (render invoke this) = this\<lparr>el := el_text (result invoke this textContent) (el this)\<rparr>
      \<and> content (el (snd (render invoke this))) = Text (result invoke this textContent))
   \<and> (\<not> truthy_setting (textContent this) \<and> truthy_setting (innerHTML this) \<longrightarrow>
      snd (render invoke this) = this\<lparr>el := el_html (result invoke this innerHTML) (el this)\<rparr>
      \<and> content (el (snd (render invoke this))) = Markup (result invoke this innerHTML))
   \<and> (\<not> truthy_setting (textContent this) \<and> \<not> truthy_setting (innerHTML this)
        \<and> template this = Some f \<longrightarrow>
      snd (render invoke this) = this\<lparr>el := el_html (invoke f this) (el this)\<rparr>
      \<and> content (el (snd (render invoke this))) = Markup (invoke f this))"
  by (simp add: render_text render_html render_template el_text_def el_html_def)

theorem render_priority_witness:
  "content (el (snd (render const_fn ab_link))) = Text (JStr ''A'')
   \<and> content (el (snd (render const_fn (ab_link\<lparr>textContent := Lit JNull\<rparr>))))
       = Markup (JStr ''<b>B</b>'')
   \<and> content (el (snd (render const_fn
        (ab_link\<lparr>textContent := Lit JNull, innerHTML := Lit (JStr [])\<rparr>))))
       = Markup (JStr ''T'')"
proof -
  let ?b = "ab_link\<lparr>textContent := Lit JNull\<rparr>"
  let ?t = "ab_link\<lparr>textContent := Lit JNull, innerHTML := Lit (JStr [])\<rparr>"
  have "truthy_setting (textContent ab_link)"
    by (simp add: ab_link_fields)
  with render_priority [of ab_link const_fn]
  have a: "content (el (snd (render const_fn ab_link))) = Text (result const_fn ab_link textContent)"
    by blast
  have "\<not> truthy_setting (textContent ?b) \<and> truthy_setting (innerHTML ?b)"
    by (simp add: ab_link_fields)
  with render_priority [of ?b const_fn]
  have b: "content (el (snd (render const_fn ?b))) = Markup (result const_fn ?b innerHTML)"
    by blast
  have "\<not> truthy_setting (textContent ?t) \<and> \<not> truthy_setting (innerHTML ?t)
      \<and> template ?t = Some ''T''"
    by (simp add: ab_link_fields)
  with render_priority [of ?t const_fn "''T''"]
  have t: "content (el (snd (render const_fn ?t))) = Markup (const_fn ''T'' ?t)"
    by blast
  show ?thesis
    unfolding a b t by (simp add: result_def ab_link_fields const_fn_def)
qed

text \<open>
  C6. Rendering twice gives the element the content that rendering once gives it, when
  the three content options resolve at the second call to the values they resolved to at
  the first.
\<close>

theorem render_idempotent:
  assumes "result invoke' (snd (render invoke this)) textContent = result invoke this textContent"
    and "result invoke' (snd (render invoke this)) innerHTML = result invoke this innerHTML"
    and "\<forall>f. template this = Some f \<longrightarrow> invoke' f (snd (render invoke this)) = invoke f this"
  shows "content (el (snd (render invoke' (snd (render invoke this)))))
    = content (el (snd (render invoke this)))"
proof (cases "truthy_setting (textContent this)")
  case True
  then have "truthy_setting (textContent (snd (render invoke this)))"
    by (simp add: render_keeps)
  then show ?thesis
    using True assms(1) by (simp add: render_text el_text_def)
next
  case no_text: False
  then have no_text': "\<not> truthy_setting (textContent (snd (render invoke this)))"
    by (simp add: render_keeps)
  show ?thesis
  proof (cases "truthy_setting (innerHTML this)")
    case True
    then have "truthy_setting (innerHTML (snd (render invoke this)))"
      by (simp add: render_keeps)
    then show ?thesis
      using True no_text no_text' assms(2) by (simp add: render_html el_html_def)
  next
    case no_html: False
    then have no_html': "\<not> truthy_setting (innerHTML (snd (render invoke this)))"
      by (simp add: render_keeps)
    show ?thesis
    proof (cases "template this")
      case None
      then show ?thesis
        using no_text no_html by (simp add: render_nothing)
    next
      case (Some f)
      then have "template (snd (render invoke this)) = Some f"
        by (simp add: render_keeps)
      moreover have "invoke' f (snd (render invoke this)) = invoke f this"
        using assms(3) Some by blast
      ultimately show ?thesis
        using Some no_text no_html no_text' no_html' by (simp add: render_template el_html_def)
    qed
  qed
qed

theorem render_idempotent_witness:
  "content (el (snd (render const_fn (snd (render const_fn (ab_link\<lparr>textContent := Fn ''A''\<rparr>))))))
     = content (el (snd (render const_fn (ab_link\<lparr>textContent := Fn ''A''\<rparr>))))
   \<and> content (el (snd (render const_fn (ab_link\<lparr>textContent := Fn ''A''\<rparr>)))) = Text (JStr ''A'')"
proof -
  let ?w = "ab_link\<lparr>textContent := Fn ''A''\<rparr>"
  have 1: "result const_fn (snd (render const_fn ?w)) textContent = result const_fn ?w textContent"
    by (simp add: result_def render_keeps const_fn_def)
  have 2: "result const_fn (snd (render const_fn ?w)) innerHTML = result const_fn ?w innerHTML"
    by (simp add: result_def render_keeps ab_link_fields)
  have 3: "\<forall>f. template ?w = Some f \<longrightarrow> const_fn f (snd (render const_fn ?w)) = const_fn f ?w"
    by (simp add: const_fn_def)
  have "content (el (snd (render const_fn ?w))) = Text (JStr ''A'')"
    by (simp add: render_text el_text_def result_def const_fn_def)
  with render_idempotent [OF 1 2 3] show ?thesis
    by simp
qed

text \<open>
  C7. When \<^verbatim>\<open>textContent\<close>, \<^verbatim>\<open>innerHTML\<close> and \<^verbatim>\<open>template\<close> are all unset,
  \<^verbatim>\<open>render()\<close> leaves the content of the element, and the whole view, as it is. In
  every case what \<^verbatim>\<open>render()\<close> returns is the receiver \<^verbatim>\<open>this\<close>, so that a call
  chained on it acts on the view as \<^verbatim>\<open>render()\<close> left it.
\<close>

theorem render_unset_returns_this:
  "(\<not> truthy_setting (textContent this) \<and> \<not> truthy_setting (innerHTML this)
      \<and> template this = None \<longrightarrow>
      content (el (snd (render invoke this))) = content (el this)
      \<and> snd (render invoke this) = this)
   \<and> fst (render invoke this) = This
   \<and> chained (render invoke this) = Some (snd (render invoke this))"
  by (simp add: render_def chained_def)

theorem render_unset_returns_this_witness:
  "content (el (snd (render const_fn about_link))) = Markup (JStr [])
   \<and> render const_fn about_link = (This, about_link)
   \<and> fst (render const_fn ab_link) = This
   \<and> map_option (\<lambda>v. content (el v)) (chained (render const_fn ab_link)) = Some (Text (JStr ''A''))"
proof -
  have "\<not> truthy_setting (textContent about_link) \<and> \<not> truthy_setting (innerHTML about_link)
      \<and> template about_link = None"
    by (simp add: about_link_def constructor_def listenTo_def extend_def prototype_def
        pick_def no_options_def)
  with render_unset_returns_this [of about_link const_fn]
  have "content (el (snd (render const_fn about_link))) = content (el about_link)"
    and "snd (render const_fn about_link) = about_link"
    and "fst (render const_fn about_link) = This"
    by blast+
  moreover from render_unset_returns_this [of ab_link const_fn]
  have "fst (render const_fn ab_link) = This"
    and "chained (render const_fn ab_link) = Some (snd (render const_fn ab_link))"
    by blast+
  moreover have "content (el (snd (render const_fn ab_link))) = Text (JStr ''A'')"
    by (simp add: render_text el_text_def result_def ab_link_fields)
  ultimately show ?thesis
    by (simp add: about_link_fields createElement_def prod_eq_iff)
qed

section \<open>Clicks and attributes\<close>

lemma history_trigger_route:
  "history_trigger invoke ''route'' h this =
     (if subscribed this then priv_onRoute invoke h this else this)"
  by (simp add: history_trigger_def subscribed_def)

lemma priv_onClick_history:
  "fst (snd (priv_onClick invoke e h this)) =
     h\<lparr>fragment := fragment_of (result invoke this href),
       navigations := navigations h @ [(result invoke this href, True)]\<rparr>"
  by (simp add: priv_onClick_def navigate_def Let_def)

lemma priv_onClick_view:
  "snd (snd (priv_onClick invoke e h this)) =
     (if subscribed this \<and> fragment_of (result invoke this href) \<noteq> fragment h
      then priv_onRoute invoke (fst (snd (priv_onClick invoke e h this))) this
      else this)"
  by (simp add: priv_onClick_def navigate_def Let_def history_trigger_route)

text \<open>
  C4. A click delivered to the element reaches the click handler, which suppresses the
  default action of the event and requests navigation from the router, with
  \<^verbatim>\<open>trigger: true\<close>, to the \<^verbatim>\<open>href\<close> resolved at the click: the value of the function
  when \<^verbatim>\<open>href\<close> is a function. The history and the view after the click are those the
  navigation leaves.
\<close>

theorem priv_onClick_navigates:
  "dom_event invoke ''click'' e h this = priv_onClick invoke e h this
   \<and> priv_onClick invoke e h this =
       (e\<lparr>defaultPrevented := True\<rparr>, navigate invoke (result invoke this href) True h this)
   \<and> fst (snd (priv_onClick invoke e h this)) =
       h\<lparr>fragment := fragment_of (result invoke this href),
         navigations := navigations h @ [(result invoke this href, True)]\<rparr>
   \<and> snd (snd (priv_onClick invoke e h this)) =
       (if subscribed this \<and> fragment_of (result invoke this href) \<noteq> fragment h
        then priv_onRoute invoke (fst (snd (priv_onClick invoke e h this))) this
        else this)
   \<and> (href this = Fn f \<longrightarrow>
        navigations (fst (snd (priv_onClick invoke e h this))) =
          navigations h @ [(invoke f this, True)])"
proof (intro conjI impI)
  show "snd (snd (priv_onClick invoke e h this)) =
      (if subscribed this \<and> fragment_of (result invoke this href) \<noteq> fragment h
       then priv_onRoute invoke (fst (snd (priv_onClick invoke e h this))) this
       else this)"
    by (rule priv_onClick_view)
  show "dom_event invoke ''click'' e h this = priv_onClick invoke e h this"
    by (simp add: dom_event_def events_def)
  show "priv_onClick invoke e h this =
      (e\<lparr>defaultPrevented := True\<rparr>, navigate invoke (result invoke this href) True h this)"
    by (simp add: priv_onClick_def preventDefault_def)
  show "fst (snd (priv_onClick invoke e h this)) =
      h\<lparr>fragment := fragment_of (result invoke this href),
        navigations := navigations h @ [(result invoke this href, True)]\<rparr>"
    by (rule priv_onClick_history)
  show "navigations (fst (snd (priv_onClick invoke e h this))) =
      navigations h @ [(invoke f this, True)]" if "href this = Fn f"
    using that by (simp add: priv_onClick_history result_def)
qed

theorem priv_onClick_navigates_witness:
  "fst (dom_event const_fn ''click'' \<lparr>defaultPrevented = False\<rparr> (history_at ''home'') contact_link)
     = \<lparr>defaultPrevented = True\<rparr>
   \<and> fst (snd (dom_event const_fn ''click'' \<lparr>defaultPrevented = False\<rparr> (history_at ''home'')
        contact_link))
     = \<lparr>fragment = ''contact'', navigations = [(JStr ''contact'', True)]\<rparr>"
proof -
  let ?e = "\<lparr>defaultPrevented = False\<rparr>"
  let ?h = "history_at ''home''"
  from priv_onClick_navigates [of const_fn ?e ?h contact_link "''contact''"]
  have d: "dom_event const_fn ''click'' ?e ?h contact_link = priv_onClick const_fn ?e ?h contact_link"
    and c: "priv_onClick const_fn ?e ?h contact_link =
      (?e\<lparr>defaultPrevented := True\<rparr>, navigate const_fn (result const_fn contact_link href) True ?h
        contact_link)"
    and g: "fst (snd (priv_onClick const_fn ?e ?h contact_link)) =
      ?h\<lparr>fragment := fragment_of (result const_fn contact_link href),
        navigations := navigations ?h @ [(result const_fn contact_link href, True)]\<rparr>"
    and n: "href contact_link = Fn ''contact'' \<longrightarrow>
      navigations (fst (snd (priv_onClick const_fn ?e ?h contact_link))) =
        navigations ?h @ [(const_fn ''contact'' contact_link, True)]"
    by blast+
  have r: "result const_fn contact_link href = JStr ''contact''"
    by (simp add: result_def contact_link_fields const_fn_def)
  from n have "navigations (fst (snd (priv_onClick const_fn ?e ?h contact_link))) =
      [(JStr ''contact'', True)]"
    by (simp add: contact_link_fields history_at_def const_fn_def)
  moreover have "fst (priv_onClick const_fn ?e ?h contact_link) = \<lparr>defaultPrevented = True\<rparr>"
    unfolding c by simp
  ultimately show ?thesis
    unfolding d g r by (simp add: history_at_def fragment_of_def)
qed

text \<open>
  C5. \<^verbatim>\<open>attributes()\<close> returns an object whose \<^verbatim>\<open>href\<close> is the \<^verbatim>\<open>href\<close> option
  resolved at the call: a literal as it is, a function by its value when called with the
  view as context.
\<close>

theorem attributes_href:
  "fst (attributes invoke this) = [(''href'', result invoke this href)]
   \<and> (href this = Lit v \<longrightarrow> fst (attributes invoke this) = [(''href'', v)])
   \<and> (href this = Fn f \<longrightarrow> fst (attributes invoke this) = [(''href'', invoke f this)])"
  by (simp add: attributes_def result_def)

theorem attributes_href_witness:
  "fst (attributes const_fn about_link) = [(''href'', JStr ''about'')]
   \<and> fst (attributes const_fn contact_link) = [(''href'', JStr ''contact'')]"
proof -
  have "href about_link = Lit (JStr ''about'')"
    by (simp add: about_link_fields)
  with attributes_href [of const_fn about_link "JStr ''about''"]
  have a: "fst (attributes const_fn about_link) = [(''href'', JStr ''about'')]"
    by blast
  have "href contact_link = Fn ''contact''"
    by (simp add: contact_link_fields)
  with attributes_href [of const_fn contact_link _ "''contact''"]
  have "fst (attributes const_fn contact_link) = [(''href'', const_fn ''contact'' contact_link)]"
    by blast
  with a show ?thesis
    by (simp add: const_fn_def)
qed

section \<open>What the calls keep\<close>

lemma priv_onRoute_keeps:
  "href (priv_onRoute invoke h this) = href this"
  "activeClass (priv_onRoute invoke h this) = activeClass this"
  "textContent (priv_onRoute invoke h this) = textContent this"
  "innerHTML (priv_onRoute invoke h this) = innerHTML this"
  "template (priv_onRoute invoke h this) = template this"
  "listening (priv_onRoute invoke h this) = listening this"
  by (simp_all add: priv_onRoute_def Let_def)

lemma priv_onClick_keeps_activeClass:
  "activeClass (snd (snd (priv_onClick invoke e h this))) = activeClass this"
  by (simp add: priv_onClick_view priv_onRoute_keeps)

lemma exec_keeps_activeClass: "activeClass (snd (exec invoke c s)) = activeClass (snd s)"
proof (cases s)
  case (Pair h this)
  show ?thesis
  proof (cases c)
    case (Click e)
    have "snd (exec invoke (Click e) (h, this)) = snd (snd (priv_onClick invoke e h this))"
      by (simp add: dom_event_def events_def split: prod.split)
    then show ?thesis
      by (simp add: Pair Click priv_onClick_keeps_activeClass)
  qed (simp_all add: Pair attributes_def isActive_def render_keeps priv_onRoute_keeps
      history_trigger_def Let_def)
qed

lemma run_keeps_activeClass: "activeClass (snd (run cs s)) = activeClass (snd s)"
proof (induction cs arbitrary: s)
  case Nil
  show ?case by simp
next
  case (Cons a cs)
  obtain invoke c where a: "a = (invoke, c)"
    by (cases a)
  show ?case
    by (simp add: a Cons.IH exec_keeps_activeClass)
qed

lemma exec_Click:
  "exec invoke (Click e) (h, this) =
     (fst (snd (priv_onClick invoke e h this)), snd (snd (priv_onClick invoke e h this)))"
  by (simp add: dom_event_def events_def split: prod.split)

lemma exec_quiet_keeps_isActive:
  assumes "\<not> notifies invoke c s"
  shows "priv_isActive (snd (exec invoke c s)) = priv_isActive (snd s)"
proof (cases s)
  case (Pair h this)
  show ?thesis
  proof (cases c)
    case (Click e)
    from assms have "\<not> (subscribed this \<and> fragment_of (result invoke this href) \<noteq> fragment h)"
      by (simp add: Pair Click)
    then show ?thesis
      unfolding Pair Click exec_Click by (auto simp add: priv_onClick_view)
  next
    case (Route r)
    with assms Pair show ?thesis
      by (simp add: Let_def history_trigger_route)
  qed (simp_all add: Pair attributes_def isActive_def render_keeps)
qed


lemma run_quiet_keeps_isActive:
  assumes "quiet cs s"
  shows "priv_isActive (snd (run cs s)) = priv_isActive (snd s)"
  using assms
proof (induction cs arbitrary: s)
  case Nil
  show ?case by simp
next
  case (Cons a cs)
  obtain invoke c where a: "a = (invoke, c)"
    by (cases a)
  from Cons.prems have "\<not> notifies invoke c s" and "quiet cs (exec invoke c s)"
    by (simp_all add: a)
  then show ?case
    by (simp add: a Cons.IH exec_quiet_keeps_isActive)
qed

lemma constructor_fresh: "priv_isActive (constructor options) = JUndefined"
  by (simp add: constructor_def listenTo_def extend_def prototype_def)

lemma constructor_activeClass:
  assumes "opt_activeClass (pick options) = None"
  shows "activeClass (constructor options) = Lit (JStr ''active'')"
  using assms by (simp add: constructor_def listenTo_def extend_def prototype_def)

text \<open>
  C8. A view constructed without an \<^verbatim>\<open>activeClass\<close> option uses the class
  \<^verbatim>\<open>'active'\<close> in its route handler, whatever calls it has received since. When
  \<^verbatim>\<open>activeClass\<close> is a function, the class the handler adds or removes is the value of
  the function at that notification.
\<close>

theorem activeClass_default_and_function:
  "(opt_activeClass (pick options) = None \<and> this = snd (run cs (h0, constructor options)) \<longrightarrow>
      result invoke this activeClass = JStr ''active''
      \<and> (JStr (getFragment h) = result invoke this href \<and> \<not> truthy (priv_isActive this) \<longrightarrow>
           el (priv_onRoute invoke h this) = addClass (JStr ''active'') (el this))
      \<and> (JStr (getFragment h) \<noteq> result invoke this href \<and> truthy (priv_isActive this) \<longrightarrow>
           el (priv_onRoute invoke h this) = removeClass (JStr ''active'') (el this)))
   \<and> (activeClass that = Fn f \<longrightarrow>
      (JStr (getFragment h) = result invoke that href \<and> \<not> truthy (priv_isActive that) \<longrightarrow>
           el (priv_onRoute invoke h that) = addClass (invoke f that) (el that))
      \<and> (JStr (getFragment h) \<noteq> result invoke that href \<and> truthy (priv_isActive that) \<longrightarrow>
           el (priv_onRoute invoke h that) = removeClass (invoke f that) (el that)))"
proof -
  have "result invoke this activeClass = JStr ''active''"
    if "opt_activeClass (pick options) = None" and "this = snd (run cs (h0, constructor options))"
  proof -
    from that have "activeClass this = Lit (JStr ''active'')"
      by (simp add: run_keeps_activeClass constructor_activeClass)
    then show ?thesis
      by (simp add: result_def)
  qed
  moreover have "result invoke that activeClass = invoke f that" if "activeClass that = Fn f"
    using that by (simp add: result_def)
  ultimately show ?thesis
    by (simp add: priv_onRoute_activate priv_onRoute_deactivate)
qed

theorem activeClass_default_and_function_witness:
  "classes (el (priv_onRoute const_fn (history_at ''about'') about_link)) = [JStr ''active'']
   \<and> classes (el (priv_onRoute (returning ''on'') (history_at ''about'')
        (about_link\<lparr>activeClass := Fn ''f''\<rparr>))) = [JStr ''on'']
   \<and> classes (el (priv_onRoute (returning ''off'') (history_at ''home'')
        (priv_onRoute (returning ''on'') (history_at ''about'')
          (about_link\<lparr>activeClass := Fn ''f''\<rparr>)))) = [JStr ''on'']"
proof -
  let ?about = "history_at ''about''"
  let ?home = "history_at ''home''"
  let ?w = "about_link\<lparr>activeClass := Fn ''f''\<rparr>"
  let ?w1 = "priv_onRoute (returning ''on'') ?about ?w"
  have 0: "opt_activeClass (pick (Some (no_options\<lparr>opt_href := Some (Lit (JStr ''about''))\<rparr>))) = None
      \<and> about_link = snd (run [] (?home, constructor (Some (no_options\<lparr>opt_href := Some (Lit (JStr ''about''))\<rparr>))))"
    by (simp add: pick_def no_options_def about_link_def)
  have 1: "JStr (getFragment ?about) = result const_fn about_link href
      \<and> \<not> truthy (priv_isActive about_link)"
    by (simp add: about_link_fields result_def getFragment_def history_at_def)
  from activeClass_default_and_function
    [of "Some (no_options\<lparr>opt_href := Some (Lit (JStr ''about''))\<rparr>)" about_link "[]" ?home
      const_fn ?about] 0 1
  have a: "el (priv_onRoute const_fn ?about about_link) = addClass (JStr ''active'') (el about_link)"
    by blast
  have 2: "activeClass ?w = Fn ''f''"
    by simp
  have 3: "JStr (getFragment ?about) = result (returning ''on'') ?w href
      \<and> \<not> truthy (priv_isActive ?w)"
    by (simp add: about_link_fields result_def getFragment_def history_at_def)
  from activeClass_default_and_function [of _ _ _ _ "returning ''on''" ?about ?w "''f''"] 2 3
  have b: "el ?w1 = addClass (returning ''on'' ''f'' ?w) (el ?w)"
    by blast
  have w1: "?w1 = ?w\<lparr>priv_isActive := JBool True,
      el := addClass (result (returning ''on'') ?w activeClass) (el ?w)\<rparr>"
    using 3 by (simp add: priv_onRoute_activate)
  have 4: "activeClass ?w1 = Fn ''f''"
    by (simp add: priv_onRoute_keeps)
  have 5: "JStr (getFragment ?home) \<noteq> result (returning ''off'') ?w1 href
      \<and> truthy (priv_isActive ?w1)"
    unfolding w1 by (simp add: about_link_fields result_def getFragment_def history_at_def)
  from activeClass_default_and_function [of _ _ _ _ "returning ''off''" ?home ?w1 "''f''"] 4 5
  have c: "el (priv_onRoute (returning ''off'') ?home ?w1) =
      removeClass (returning ''off'' ''f'' ?w1) (el ?w1)"
    by blast
  show ?thesis
    unfolding c b a
    by (simp add: returning_def about_link_fields addClass_def removeClass_def createElement_def)
qed




lemma notifies_methods:
  "\<not> notifies invoke Attributes s" "\<not> notifies invoke IsActive s" "\<not> notifies invoke Render s"
  by (cases s; simp)+

text \<open>
  C10. A view that has received no route notification since its construction is not
  active: \<^verbatim>\<open>isActive()\<close> returns \<^verbatim>\<open>false\<close>. In every state \<^verbatim>\<open>isActive()\<close> returns a
  boolean, the truthiness of the flag: \<^verbatim>\<open>false\<close> when the flag is \<^verbatim>\<open>undefined\<close>.
\<close>

theorem isActive_fresh_boolean:
  "(quiet cs (h, constructor options) \<longrightarrow>
      fst (isActive (snd (run cs (h, constructor options)))) = JBool False)
   \<and> fst (isActive this) = JBool (truthy (priv_isActive this))
   \<and> fst (isActive (this\<lparr>priv_isActive := JUndefined\<rparr>)) = JBool False"
  by (simp add: isActive_def js_not_def run_quiet_keeps_isActive constructor_fresh)

theorem isActive_fresh_boolean_witness:
  "fst (isActive about_link) = JBool False
   \<and> fst (isActive (snd (run [(const_fn, Render), (const_fn, Click \<lparr>defaultPrevented = False\<rparr>),
        (const_fn, Attributes), (const_fn, IsActive)] (history_at ''about'', about_link)))) = JBool False
   \<and> fst (isActive (about_link\<lparr>priv_isActive := JBool True\<rparr>)) = JBool True
   \<and> fst (isActive (about_link\<lparr>priv_isActive := JStr ''yes''\<rparr>)) = JBool True"
proof -
  let ?o = "Some (no_options\<lparr>opt_href := Some (Lit (JStr ''about''))\<rparr>)"
  let ?e = "\<lparr>defaultPrevented = False\<rparr>"
  let ?cs = "[(const_fn, Render), (const_fn, Click ?e), (const_fn, Attributes), (const_fn, IsActive)]"
  have "quiet [] (history_at ''about'', constructor ?o)"
    by simp
  with isActive_fresh_boolean [of "[]" "history_at ''about''" ?o]
  have "fst (isActive (snd (run [] (history_at ''about'', constructor ?o)))) = JBool False"
    by blast
  then have a: "fst (isActive about_link) = JBool False"
    by (simp add: about_link_def)
  have "quiet ?cs (history_at ''about'', about_link)"
    by (simp add: notifies_methods result_def render_keeps about_link_fields fragment_of_def
        history_at_def)
  then have "quiet ?cs (history_at ''about'', constructor ?o)"
    by (simp only: about_link_def)
  with isActive_fresh_boolean [of ?cs "history_at ''about''" ?o]
  have "fst (isActive (snd (run ?cs (history_at ''about'', constructor ?o)))) = JBool False"
    by blast
  then have b: "fst (isActive (snd (run ?cs (history_at ''about'', about_link)))) = JBool False"
    by (simp only: about_link_def)
  from isActive_fresh_boolean [of "[]" "history_at ''about''" ?o
      "about_link\<lparr>priv_isActive := JBool True\<rparr>"]
  have c: "fst (isActive (about_link\<lparr>priv_isActive := JBool True\<rparr>)) = JBool True"
    by simp
  from isActive_fresh_boolean [of "[]" "history_at ''about''" ?o
      "about_link\<lparr>priv_isActive := JStr ''yes''\<rparr>"]
  have d: "fst (isActive (about_link\<lparr>priv_isActive := JStr ''yes''\<rparr>)) = JBool True"
    by simp
  from a b c d show ?thesis
    by blast
qed

end
